theory Spec2Isabelle
  imports
    Main
    "HOL-Library.Multiset"
    "HOL-Library.Char_ord"
    "HOL-Library.List_Lexorder"
    "HOL-Library.Sublist"
begin

section \<open>Inventory tracker: a shallow embedding of app.py\<close>

text \<open>
  The program keeps two SQLite tables, \<open>inventory\<close> and \<open>orders\<close>, and offers
  ten menu actions over them. Each action reads its arguments with \<open>input()\<close> or
  \<open>prompt_int\<close>, runs one or more SQL statements and prints a message or a listing.

  The embedding makes the tables an explicit state. An action is a function from
  the values its prompts return and the database to what it prints and the database
  it leaves. Strings are \<open>string\<close>, read as sequences of code points below 256;
  numbers are Python's unbounded integers, \<open>int\<close>, of which SQLite stores and binds
  only those of 64 bits. \<open>prompt_int\<close> is not modelled:
  an action takes the integer it returns, and the lower bound \<open>prompt_int\<close> enforces
  appears as a hypothesis where a statement needs it.
\<close>

subsection \<open>The string operations the program uses\<close>

text \<open>\<open>str.isspace\<close> on the code points below 256.\<close>

definition isspace :: "char \<Rightarrow> bool" where
  "isspace c = (c \<in> set [CHR 0x09, CHR 0x0A, CHR 0x0B, CHR 0x0C, CHR 0x0D,
     CHR 0x1C, CHR 0x1D, CHR 0x1E, CHR 0x1F, CHR 0x20, CHR 0x85, CHR 0xA0])"

text \<open>\<open>str.strip()\<close>: leading and trailing whitespace removed.\<close>

definition strip :: "string \<Rightarrow> string" where
  "strip s = rev (dropWhile isspace (rev (dropWhile isspace s)))"

text \<open>The upper-case letters of ASCII, and their lower-case forms.\<close>

definition ascii_upper_letters :: string where
  "ascii_upper_letters = ''ABCDEFGHIJKLMNOPQRSTUVWXYZ''"

definition ascii_lower_letters :: string where
  "ascii_lower_letters = ''abcdefghijklmnopqrstuvwxyz''"

text \<open>The upper-case letters of Latin-1 (U+00C0 to U+00DE without U+00D7), and
  their lower-case forms (U+00E0 to U+00FE without U+00F7).\<close>

definition latin1_upper_letters :: string where
  "latin1_upper_letters =
    [CHR 0xC0, CHR 0xC1, CHR 0xC2, CHR 0xC3, CHR 0xC4, CHR 0xC5, CHR 0xC6, CHR 0xC7,
     CHR 0xC8, CHR 0xC9, CHR 0xCA, CHR 0xCB, CHR 0xCC, CHR 0xCD, CHR 0xCE, CHR 0xCF,
     CHR 0xD0, CHR 0xD1, CHR 0xD2, CHR 0xD3, CHR 0xD4, CHR 0xD5, CHR 0xD6,
     CHR 0xD8, CHR 0xD9, CHR 0xDA, CHR 0xDB, CHR 0xDC, CHR 0xDD, CHR 0xDE]"

definition latin1_lower_letters :: string where
  "latin1_lower_letters =
    [CHR 0xE0, CHR 0xE1, CHR 0xE2, CHR 0xE3, CHR 0xE4, CHR 0xE5, CHR 0xE6, CHR 0xE7,
     CHR 0xE8, CHR 0xE9, CHR 0xEA, CHR 0xEB, CHR 0xEC, CHR 0xED, CHR 0xEE, CHR 0xEF,
     CHR 0xF0, CHR 0xF1, CHR 0xF2, CHR 0xF3, CHR 0xF4, CHR 0xF5, CHR 0xF6,
     CHR 0xF8, CHR 0xF9, CHR 0xFA, CHR 0xFB, CHR 0xFC, CHR 0xFD, CHR 0xFE]"

text \<open>The lower-case form of one character, by a conversion table.\<close>

definition lower_by :: "string \<Rightarrow> string \<Rightarrow> char \<Rightarrow> char" where
  "lower_by uppers lowers c = (case map_of (zip uppers lowers) c of Some l \<Rightarrow> l | None \<Rightarrow> c)"

text \<open>\<open>str.lower()\<close> of Python, on the code points below 256.\<close>

definition lower :: "string \<Rightarrow> string" where
  "lower s = map (lower_by (ascii_upper_letters @ latin1_upper_letters)
                           (ascii_lower_letters @ latin1_lower_letters)) s"

text \<open>SQLite folds the case of the 26 ASCII letters only, in its \<open>lower()\<close>
  function and in \<open>LIKE\<close>.\<close>

definition sqlite_lower :: "string \<Rightarrow> string" where
  "sqlite_lower s = map (lower_by ascii_upper_letters ascii_lower_letters) s"

text \<open>\<open>str.startswith\<close>.\<close>

definition startswith :: "string \<Rightarrow> string \<Rightarrow> bool" where
  "startswith s p = (take (length p) s = p)"

text \<open>\<open>str(n)\<close> for an integer: decimal digits, a minus sign when negative.\<close>

definition digit_char :: "nat \<Rightarrow> char" where
  "digit_char d = ''0123456789'' ! d"

function digits :: "nat \<Rightarrow> string" where
  "digits n = (if n < 10 then [digit_char n] else digits (n div 10) @ [digit_char (n mod 10)])"
  by pat_completeness auto
termination
  by (relation "measure (\<lambda>n. n)") auto

declare digits.simps [simp del]

definition str_of_int :: "int \<Rightarrow> string" where
  "str_of_int i = (if i < 0 then CHR ''-'' # digits (nat (- i)) else digits (nat i))"

text \<open>The integers SQLite stores: 64 bits, signed. The \<open>sqlite3\<close> module raises
  \<open>OverflowError\<close> when a statement is given any other integer as a parameter.\<close>

definition in_int64 :: "int \<Rightarrow> bool" where
  "in_int64 i = (- 9223372036854775808 \<le> i \<and> i \<le> 9223372036854775807)"

text \<open>The number of bytes of a string in UTF-8, for code points below 256.\<close>

definition utf8_length :: "string \<Rightarrow> nat" where
  "utf8_length s = length s + length (filter (\<lambda>c. CHR 0x80 \<le> c) s)"

text \<open>\<open>str.ljust\<close> and \<open>str.rjust\<close>: padding with spaces to a width, as the
  format specifications \<open>:20\<close> of a string and \<open>:5\<close> of an integer do.\<close>

definition ljust :: "string \<Rightarrow> nat \<Rightarrow> string" where
  "ljust s n = s @ replicate (n - length s) (CHR '' '')"

definition rjust :: "string \<Rightarrow> nat \<Rightarrow> string" where
  "rjust s n = replicate (n - length s) (CHR '' '') @ s"

subsection \<open>The two tables\<close>

text \<open>
  \<open>create_tables\<close> declares
  \<^verbatim>\<open>inventory(id INTEGER PRIMARY KEY, item TEXT UNIQUE NOT NULL, category TEXT NOT NULL,
            qty INTEGER NOT NULL CHECK (qty >= 0),
            reorder_level INTEGER NOT NULL CHECK (reorder_level >= 0))\<close>
  and
  \<^verbatim>\<open>orders(id INTEGER PRIMARY KEY, item_id INTEGER NOT NULL, qty INTEGER NOT NULL CHECK (qty > 0),
         note TEXT, ordered_at TEXT NOT NULL, FOREIGN KEY(item_id) REFERENCES inventory(id))\<close>.
  A table is the list of its rows in rowid order. \<open>connect_db\<close> never switches
  foreign-key enforcement on, so the foreign key declares a reference and checks nothing.
\<close>

record inventory_row =
  inv_id :: int
  item :: string
  category :: string
  qty :: int
  reorder_level :: int

record order_row =
  ord_id :: int
  item_id :: int
  ord_qty :: int
  ord_note :: "string option"
  ordered_at :: string

record database =
  inventory :: "inventory_row list"
  orders :: "order_row list"

text \<open>The database right after \<open>create_tables\<close> on a fresh file.\<close>

definition create_tables :: database where
  "create_tables = \<lparr>inventory = [], orders = []\<rparr>"

text \<open>The rowid SQLite gives a row inserted without one: one more than the largest
  in the table, and 1 in an empty table. (Once the largest is \<open>2^63 - 1\<close> SQLite
  tries unused rowids at random; the program, which never chooses a rowid itself,
  does not come there.)\<close>

fun next_rowid :: "int list \<Rightarrow> int" where
  "next_rowid [] = 1"
| "next_rowid (x # xs) = fold max xs x + 1"

text \<open>What the schema's constraints promise of a stored database: primary keys and
  item names are unique, and the CHECK constraints hold.\<close>

definition schema_ok :: "database \<Rightarrow> bool" where
  "schema_ok db =
    (distinct (map inv_id (inventory db)) \<and>
     distinct (map item (inventory db)) \<and>
     list_all (\<lambda>r. 0 \<le> qty r \<and> 0 \<le> reorder_level r) (inventory db) \<and>
     distinct (map ord_id (orders db)) \<and>
     list_all (\<lambda>x. 0 < ord_qty x) (orders db))"

subsection \<open>SQL statements\<close>

text \<open>\<open>SELECT id, qty FROM inventory WHERE item = ?\<close> with \<open>fetchone()\<close>: the
  first row of that name.\<close>

definition select_by_item :: "string \<Rightarrow> inventory_row list \<Rightarrow> inventory_row option" where
  "select_by_item name tbl = find (\<lambda>r. item r = name) tbl"

text \<open>\<open>UPDATE inventory SET qty = ? WHERE id = ?\<close>.\<close>

definition update_qty :: "int \<Rightarrow> int \<Rightarrow> inventory_row list \<Rightarrow> inventory_row list" where
  "update_qty new_qty rid tbl = map (\<lambda>r. if inv_id r = rid then r\<lparr>qty := new_qty\<rparr> else r) tbl"

text \<open>\<open>UPDATE inventory SET qty = qty - ? WHERE id = ?\<close>.\<close>

definition decrement_qty :: "int \<Rightarrow> int \<Rightarrow> inventory_row list \<Rightarrow> inventory_row list" where
  "decrement_qty q rid tbl = map (\<lambda>r. if inv_id r = rid then r\<lparr>qty := qty r - q\<rparr> else r) tbl"

text \<open>\<open>INSERT INTO orders (item_id, qty, note, ordered_at) VALUES (?, ?, ?, ?)\<close>.\<close>

definition insert_order :: "int \<Rightarrow> int \<Rightarrow> string option \<Rightarrow> string \<Rightarrow> order_row list \<Rightarrow> order_row list" where
  "insert_order rid q n now ords =
    ords @ [\<lparr>ord_id = next_rowid (map ord_id ords), item_id = rid, ord_qty = q,
             ord_note = n, ordered_at = now\<rparr>]"

text \<open>\<open>INSERT INTO inventory (item, category, qty, reorder_level) VALUES (?, ?, ?, ?)
  ON CONFLICT(item) DO UPDATE SET category=excluded.category, qty=excluded.qty,
  reorder_level=excluded.reorder_level\<close>: a row of that name is updated in place and
  keeps its id; without one, a new row is appended.\<close>

definition upsert :: "string \<Rightarrow> string \<Rightarrow> int \<Rightarrow> int \<Rightarrow> inventory_row list \<Rightarrow> inventory_row list" where
  "upsert name cat q rl tbl =
    (if name \<in> set (map item tbl)
     then map (\<lambda>r. if item r = name then r\<lparr>category := cat, qty := q, reorder_level := rl\<rparr> else r) tbl
     else tbl @ [\<lparr>inv_id = next_rowid (map inv_id tbl), item = name, category = cat,
                  qty = q, reorder_level = rl\<rparr>])"

text \<open>\<open>DELETE FROM inventory WHERE item = ?\<close>.\<close>

definition delete_by_item :: "string \<Rightarrow> inventory_row list \<Rightarrow> inventory_row list" where
  "delete_by_item name tbl = filter (\<lambda>r. item r \<noteq> name) tbl"

subsection \<open>The actions that write\<close>

text \<open>An action returns what it prints, or the exception that ends it. The
  \<open>sqlite3\<close> module raises \<open>OverflowError\<close> when a parameter is an integer beyond 64
  bits, before the statement runs; SQLite raises \<open>IntegrityError\<close> when a statement
  would break a CHECK constraint, and \<open>OperationalError\<close> when a \<open>SUM\<close> overflows or
  a \<open>LIKE\<close> pattern is too long. No action catches an exception, and the connection's
  \<open>with\<close> block rolls the transaction back.\<close>

datatype exception = IntegrityError | OverflowError | OperationalError

datatype outcome = Printed string | Raised exception

text \<open>\<open>add_or_update_item\<close>, from the name and category typed and the two numbers
  \<open>prompt_int\<close> returned.\<close>

definition add_or_update_item :: "string \<Rightarrow> string \<Rightarrow> int \<Rightarrow> int \<Rightarrow> database \<Rightarrow> outcome \<times> database" where
  "add_or_update_item raw_item raw_category q rl db =
    (let name = strip raw_item in
     if name = [] then (Printed ''Item name cannot be empty.'', db)
     else
       let cat = (if strip raw_category = [] then ''General'' else strip raw_category) in
       if \<not> in_int64 q \<or> \<not> in_int64 rl then (Raised OverflowError, db)
       else if q < 0 \<or> rl < 0 then (Raised IntegrityError, db)
       else (Printed (''Saved '' @ [CHR 0x27] @ name @ [CHR 0x27] @ '' ('' @ str_of_int q @ '' units).''),
             db\<lparr>inventory := upsert name cat q rl (inventory db)\<rparr>))"

text \<open>The sign \<open>adjust_quantity\<close> gives the amount: \<open>+1\<close> when the direction typed,
  stripped and lower-cased, and read as \<open>a\<close> when empty, starts with \<open>a\<close>; \<open>-1\<close>
  otherwise.\<close>

definition multiplier :: "string \<Rightarrow> int" where
  "multiplier raw_direction =
    (let d = lower (strip raw_direction);
         direction = (if d = [] then ''a'' else d)
     in if startswith direction ''a'' then 1 else - 1)"

text \<open>\<open>adjust_quantity\<close>. The new quantity is computed in Python and bound to the
  \<open>UPDATE\<close>.\<close>

definition adjust_quantity :: "string \<Rightarrow> int \<Rightarrow> string \<Rightarrow> database \<Rightarrow> outcome \<times> database" where
  "adjust_quantity raw_item delta raw_direction db =
    (let name = strip raw_item in
     case select_by_item name (inventory db) of
       None \<Rightarrow> (Printed ''Item not found.'', db)
     | Some row \<Rightarrow>
         let new_qty = qty row + multiplier raw_direction * delta in
         if new_qty < 0 then (Printed ''Cannot reduce below zero.'', db)
         else if \<not> in_int64 new_qty then (Raised OverflowError, db)
         else (Printed (name @ '' now has '' @ str_of_int new_qty @ '' units.''),
               db\<lparr>inventory := update_qty new_qty (inv_id row) (inventory db)\<rparr>))"

text \<open>\<open>place_order\<close>; \<open>now\<close> is \<open>datetime.utcnow().isoformat()\<close>. An order
  quantity below 1 cannot come from \<open>prompt_int\<close>; the CHECK constraint of
  \<open>orders\<close> would refuse the row and the decrement would be rolled back with it.
  The quantity is bound only after the stock test, so it is at most a stored one.\<close>

definition place_order :: "string \<Rightarrow> int \<Rightarrow> string \<Rightarrow> string \<Rightarrow> database \<Rightarrow> outcome \<times> database" where
  "place_order raw_item q raw_note now db =
    (let name = strip raw_item;
         n = (if strip raw_note = [] then None else Some (strip raw_note))
     in case select_by_item name (inventory db) of
       None \<Rightarrow> (Printed ''Item not found.'', db)
     | Some row \<Rightarrow>
         if qty row < q then (Printed ''Not enough stock for this order.'', db)
         else if q \<le> 0 then (Raised IntegrityError, db)
         else (Printed (''Order recorded for '' @ str_of_int q @ '' units of '' @ name @ ''.''),
               \<lparr>inventory = decrement_qty q (inv_id row) (inventory db),
                orders = insert_order (inv_id row) q n now (orders db)\<rparr>))"

text \<open>\<open>delete_item\<close>.\<close>

definition delete_item :: "string \<Rightarrow> database \<Rightarrow> outcome \<times> database" where
  "delete_item raw_item db =
    (let name = strip raw_item;
         deleted = length (filter (\<lambda>r. item r = name) (inventory db));
         db' = db\<lparr>inventory := delete_by_item name (inventory db)\<rparr>
     in if deleted \<noteq> 0
        then (Printed (''Deleted '' @ name @ ''. Related order history remains for auditing.''), db')
        else (Printed ''Item not found.'', db'))"

subsection \<open>The listings\<close>

text \<open>A listing action prints one line when its query returns no row, and the rows
  otherwise. But for \<open>view_inventory\<close>, which cuts what it prints, the rows stand
  for the lines printed from them.\<close>

datatype 'r report = Message string | Listing "'r list"

definition report :: "string \<Rightarrow> 'r list \<Rightarrow> 'r report" where
  "report msg rows = (if rows = [] then Message msg else Listing rows)"

fun rows_of :: "'r report \<Rightarrow> 'r list" where
  "rows_of (Message msg) = []"
| "rows_of (Listing rows) = rows"

text \<open>\<open>ORDER BY k DESC\<close>. SQL leaves the order of rows with equal keys open;
  SQLite's sorter keeps them in the order the query produces them, as here. The
  ascending \<open>sort_key\<close> keeps that order too.\<close>

definition sort_key_desc :: "('r \<Rightarrow> 'k::linorder) \<Rightarrow> 'r list \<Rightarrow> 'r list" where
  "sort_key_desc k rows = rev (sort_key k (rev rows))"

text \<open>\<open>SELECT item, category, qty, reorder_level FROM inventory ORDER BY item\<close>,
  the query of \<open>view_inventory\<close> and of \<open>export_inventory\<close>.\<close>

definition select_inventory :: "database \<Rightarrow> (string \<times> string \<times> int \<times> int) list" where
  "select_inventory db =
    map (\<lambda>r. (item r, category r, qty r, reorder_level r)) (sort_key item (inventory db))"

text \<open>\<open>view_inventory\<close> prints an empty line with the column titles, a rule of 55
  dashes, and one line per row fetched: the name cut to 20 characters, the category
  cut to 15, and the two numbers, each padded to its column.\<close>

definition inventory_line :: "string \<times> string \<times> int \<times> int \<Rightarrow> string" where
  "inventory_line row =
    (case row of (i, c, q, rl) \<Rightarrow>
      ljust (take 20 i) 20 @ '' '' @ ljust (take 15 c) 15 @ '' '' @
      rjust (str_of_int q) 5 @ '' '' @ rjust (str_of_int rl) 10)"

definition view_inventory :: "database \<Rightarrow> string report" where
  "view_inventory db =
    (let rows = select_inventory db in
     if rows = [] then Message ''Inventory is empty.''
     else Listing ([[],
                    ljust ''Item'' 20 @ '' '' @ ljust ''Category'' 15 @ '' '' @
                      ljust ''Qty'' 5 @ '' '' @ ljust ''Reorder @'' 10,
                    replicate 55 (CHR ''-'')]
                   @ map inventory_line rows))"

text \<open>The \<open>LIKE\<close> operator of SQLite, pattern first: \<open>%\<close> stands for any run of
  characters, \<open>_\<close> for any one character, and any other character for itself, the
  case of ASCII letters ignored.\<close>

fun like :: "string \<Rightarrow> string \<Rightarrow> bool" where
  "like [] s = (s = [])"
| "like (p # ps) [] = (p = CHR ''%'' \<and> like ps [])"
| "like (p # ps) (c # cs) =
    (if p = CHR ''%'' then like ps (c # cs) \<or> like (p # ps) cs
     else (p = CHR ''_'' \<or> sqlite_lower [p] = sqlite_lower [c]) \<and> like ps cs)"

text \<open>\<open>search_inventory\<close>: the query
  \<open>WHERE lower(item) LIKE ? OR lower(category) LIKE ? ORDER BY item\<close>
  with \<open>%term%\<close> for both parameters. SQLite refuses a pattern of more than 50000
  bytes when it first evaluates \<open>LIKE\<close>, that is on the first row.\<close>

definition search_inventory ::
    "string \<Rightarrow> database \<Rightarrow> exception + (string \<times> string \<times> int \<times> int) report" where
  "search_inventory raw_term db =
    (let t = lower (strip raw_term) in
     if t = [] then Inr (Message ''Nothing to search.'')
     else
       let pat = ''%'' @ t @ ''%'' in
       if inventory db \<noteq> [] \<and> 50000 < utf8_length pat then Inl OperationalError
       else Inr (report ''No matching items found.''
         (map (\<lambda>r. (item r, category r, qty r, reorder_level r))
           (sort_key item
             (filter (\<lambda>r. like pat (sqlite_lower (item r)) \<or> like pat (sqlite_lower (category r)))
               (inventory db))))))"

text \<open>What the specification asks of a match, in SQLite's notion of case: \<open>t\<close> is a
  substring of \<open>s\<close> once the ASCII letters of both are lower-cased.\<close>

definition contains_ignoring_ascii_case :: "string \<Rightarrow> string \<Rightarrow> bool" where
  "contains_ignoring_ascii_case s t = sublist (sqlite_lower t) (sqlite_lower s)"

text \<open>\<open>view_orders\<close>: the inner join of \<open>orders\<close> with \<open>inventory\<close> on
  \<open>o.item_id = i.id\<close>, newest first.\<close>

definition join_orders :: "database \<Rightarrow> (int \<times> string \<times> int \<times> string option \<times> string) list" where
  "join_orders db =
    concat (map (\<lambda>x. map (\<lambda>r. (ord_id x, item r, ord_qty x, ord_note x, ordered_at x))
                         (filter (\<lambda>r. item_id x = inv_id r) (inventory db)))
                (orders db))"

definition view_orders :: "database \<Rightarrow> (int \<times> string \<times> int \<times> string option \<times> string) report" where
  "view_orders db =
    report ''No orders recorded.''
      (sort_key_desc (\<lambda>(oid, name, q, n, at). at) (join_orders db))"

text \<open>\<open>view_low_stock\<close>:
  \<open>SELECT item, qty, reorder_level FROM inventory WHERE qty <= reorder_level ORDER BY qty\<close>.\<close>

definition view_low_stock :: "database \<Rightarrow> (string \<times> int \<times> int) report" where
  "view_low_stock db =
    report ''No items at or below reorder level.''
      (map (\<lambda>r. (item r, qty r, reorder_level r))
        (sort_key qty (filter (\<lambda>r. qty r \<le> reorder_level r) (inventory db))))"

text \<open>\<open>SUM\<close> over integers: SQLite adds them up in 64 bits, in the order of the rows,
  and the query fails with \<open>integer overflow\<close> when a step leaves that range.
  \<open>COALESCE(SUM(qty), 0)\<close> is the sum, 0 for no row.\<close>

fun sum_int64 :: "int \<Rightarrow> int list \<Rightarrow> int option" where
  "sum_int64 acc [] = Some acc"
| "sum_int64 acc (x # xs) = (if in_int64 (acc + x) then sum_int64 (acc + x) xs else None)"

definition sqlite_sum :: "int list \<Rightarrow> int option" where
  "sqlite_sum xs = sum_int64 0 xs"

text \<open>\<open>inventory_summary\<close>: the totals \<open>COUNT(*), COALESCE(SUM(qty), 0)\<close>, and per
  category \<open>category, COUNT(*), COALESCE(SUM(qty), 0)\<close> with
  \<open>GROUP BY category ORDER BY qty DESC\<close>, where \<open>qty\<close> names the sum. The groups are
  formed in ascending order of the category.\<close>

definition group_by_category :: "inventory_row list \<Rightarrow> (string \<times> int \<times> int) list option" where
  "group_by_category tbl =
    those (map (\<lambda>c. map_option (\<lambda>s. (c, int (length (filter (\<lambda>r. category r = c) tbl)), s))
                              (sqlite_sum (map qty (filter (\<lambda>r. category r = c) tbl))))
               (sort (remdups (map category tbl))))"

definition inventory_summary ::
    "database \<Rightarrow> exception + ((int \<times> int) \<times> (string \<times> int \<times> int) list)" where
  "inventory_summary db =
    (case sqlite_sum (map qty (inventory db)) of
       None \<Rightarrow> Inl OperationalError
     | Some units \<Rightarrow>
         (case group_by_category (inventory db) of
            None \<Rightarrow> Inl OperationalError
          | Some groups \<Rightarrow>
              Inr ((int (length (inventory db)), units), sort_key_desc (\<lambda>(c, n, s). s) groups)))"

subsection \<open>The CSV export\<close>








subsection \<open>Reading the export back\<close>









text \<open>Modelled from the spec: reading a number field back, as \<open>int\<close> reads the
  decimal digits \<open>str\<close> wrote, with a minus sign before a negative number.\<close>

definition digit_of_char :: "char \<Rightarrow> nat option" where
  "digit_of_char c = map_of (zip ''0123456789'' [0, 1, 2, 3, 4, 5, 6, 7, 8, 9]) c"

fun nat_of_str :: "nat \<Rightarrow> string \<Rightarrow> nat option" where
  "nat_of_str acc [] = Some acc"
| "nat_of_str acc (c # cs) =
    (case digit_of_char c of None \<Rightarrow> None | Some d \<Rightarrow> nat_of_str (10 * acc + d) cs)"

definition int_of_str :: "string \<Rightarrow> int option" where
  "int_of_str s =
    (case s of
       [] \<Rightarrow> None
     | c # cs \<Rightarrow>
         if c = CHR ''-'' then (if cs = [] then None else map_option (\<lambda>n. - int n) (nat_of_str 0 cs))
         else map_option int (nat_of_str 0 s))"

text \<open>Modelled from the spec: re-reading the exported rows. The first record must be
  the header; every other record must have four fields, the last two numbers.\<close>

fun parse_row :: "string list \<Rightarrow> (string \<times> string \<times> int \<times> int) option" where
  "parse_row [i, c, q, rl] =
    (case (int_of_str q, int_of_str rl) of
       (Some q', Some rl') \<Rightarrow> Some (i, c, q', rl')
     | _ \<Rightarrow> None)"
| "parse_row cells = None"


subsection \<open>Example databases\<close>

text \<open>One item, five units on hand, reorder level three.\<close>

definition widget_db :: database where
  "widget_db =
    \<lparr>inventory = [\<lparr>inv_id = 1, item = ''Widget'', category = ''Hardware'', qty = 5, reorder_level = 3\<rparr>],
     orders = []\<rparr>"

text \<open>Three items in two categories, with one order each for the first two.\<close>

definition shop_db :: database where
  "shop_db =
    \<lparr>inventory =
       [\<lparr>inv_id = 1, item = ''Widget'', category = ''Hardware'', qty = 5, reorder_level = 3\<rparr>,
        \<lparr>inv_id = 2, item = ''Bolt'', category = ''Hardware'', qty = 2, reorder_level = 10\<rparr>,
        \<lparr>inv_id = 3, item = ''Tape'', category = ''Office'', qty = 0, reorder_level = 0\<rparr>],
     orders =
       [\<lparr>ord_id = 1, item_id = 1, ord_qty = 3, ord_note = Some ''rush'', ordered_at = ''2024-05-01T10:00:00''\<rparr>,
        \<lparr>ord_id = 2, item_id = 2, ord_qty = 1, ord_note = None, ordered_at = ''2024-05-02T09:30:00''\<rparr>]\<rparr>"

text \<open>The same three items, inserted in another order.\<close>

definition shop_db_reordered :: database where
  "shop_db_reordered =
    \<lparr>inventory =
       [\<lparr>inv_id = 1, item = ''Tape'', category = ''Office'', qty = 0, reorder_level = 0\<rparr>,
        \<lparr>inv_id = 2, item = ''Widget'', category = ''Hardware'', qty = 5, reorder_level = 3\<rparr>,
        \<lparr>inv_id = 3, item = ''Bolt'', category = ''Hardware'', qty = 2, reorder_level = 10\<rparr>],
     orders = []\<rparr>"

text \<open>\<open>widget_db\<close> after an order for three units.\<close>

definition widget_ordered_db :: database where
  "widget_ordered_db =
    \<lparr>inventory = [\<lparr>inv_id = 1, item = ''Widget'', category = ''Hardware'', qty = 2, reorder_level = 3\<rparr>],
     orders = [\<lparr>ord_id = 1, item_id = 1, ord_qty = 3, ord_note = Some ''rush'',
                ordered_at = ''2024-05-01T10:00:00''\<rparr>]\<rparr>"

text \<open>One item whose name ends in the Latin-1 letter U+00C9.\<close>

definition cafe_db :: database where
  "cafe_db =
    \<lparr>inventory = [\<lparr>inv_id = 1, item = [CHR ''C'', CHR ''A'', CHR ''F'', CHR 0xC9],
                    category = ''Drinks'', qty = 4, reorder_level = 1\<rparr>],
     orders = []\<rparr>"

text \<open>Two items whose quantities add up to \<open>2^63\<close>.\<close>

definition overflow_db :: database where
  "overflow_db =
    \<lparr>inventory =
       [\<lparr>inv_id = 1, item = ''Max'', category = ''Bulk'', qty = 9223372036854775807, reorder_level = 0\<rparr>,
        \<lparr>inv_id = 2, item = ''One'', category = ''Bulk'', qty = 1, reorder_level = 0\<rparr>],
     orders = []\<rparr>"

section \<open>Properties\<close>

subsection \<open>Rows and their keys\<close>

lemma find_by_item:
  "distinct (map item tbl) \<Longrightarrow> r \<in> set tbl \<Longrightarrow> find (\<lambda>x. item x = item r) tbl = Some r"
  by (induction tbl) (auto simp: rev_image_eqI)

lemma same_key_same_row:
  "distinct (map k tbl) \<Longrightarrow> r \<in> set tbl \<Longrightarrow> x \<in> set tbl \<Longrightarrow> k x = k r \<Longrightarrow> x = r"
  by (auto simp: distinct_map dest: inj_onD)

lemma map_by_id:
  assumes "distinct (map inv_id tbl)" and "r \<in> set tbl"
  shows "map (\<lambda>x. if inv_id x = inv_id r then f x else x) tbl = map (\<lambda>x. if x = r then f r else x) tbl"
proof (rule map_cong [OF refl])
  fix x assume "x \<in> set tbl"
  with assms same_key_same_row [of inv_id tbl r x]
  show "(if inv_id x = inv_id r then f x else x) = (if x = r then f r else x)" by auto
qed

lemma filter_by_item:
  "distinct (map item tbl) \<Longrightarrow> r \<in> set tbl \<Longrightarrow> filter (\<lambda>x. item x = item r) tbl = [r]"
proof (induction tbl)
  case Nil
  then show ?case by simp
next
  case (Cons a tbl)
  show ?case
  proof (cases "a = r")
    case True
    with Cons.prems have "item r \<notin> item ` set tbl" by simp
    then have "filter (\<lambda>x. item x = item r) tbl = []"
      by (auto simp: filter_empty_conv intro: rev_image_eqI)
    with True show ?thesis by simp
  next
    case False
    with Cons.prems have "r \<in> set tbl" and "item a \<noteq> item r" by (auto simp: rev_image_eqI)
    with Cons show ?thesis by simp
  qed
qed

lemma str_of_int_digit: "0 \<le> i \<Longrightarrow> i < 10 \<Longrightarrow> str_of_int i = [digit_char (nat i)]"
  by (simp add: str_of_int_def digits.simps)

lemmas string_eval =
  strip_def isspace_def lower_def sqlite_lower_def lower_by_def startswith_def
  ascii_upper_letters_def ascii_lower_letters_def latin1_upper_letters_def latin1_lower_letters_def

lemma strip_Widget: "strip ''Widget'' = ''Widget''"
  by (simp add: strip_def isspace_def)

lemma schema_ok_widget_db: "schema_ok widget_db"
  by (simp add: schema_ok_def widget_db_def)

subsection \<open>Placing an order\<close>

text \<open>
  C1. Let \<open>r\<close> be the item the typed name selects, in a database that satisfies the
  schema. An order for \<open>q\<close> units, \<open>1 \<le> q \<le> qty r\<close>, prints a message and leaves the
  inventory with \<open>r\<close>'s quantity lowered by \<open>q\<close> and every other row as it was, and
  the orders table with exactly one row more, for \<open>r\<close>'s id, quantity \<open>q\<close>, the note
  typed (none when it is blank) and the time of the call. An order for more than
  \<open>qty r\<close> prints \<open>Not enough stock for this order.\<close> and leaves both tables as
  they were.
\<close>

theorem place_order_stock:
  assumes "schema_ok db" and "r \<in> set (inventory db)" and "item r = strip raw_item"
  shows "(1 \<le> q \<and> q \<le> qty r \<longrightarrow>
           (\<exists>msg db'. place_order raw_item q raw_note now db = (Printed msg, db') \<and>
              inventory db' = map (\<lambda>x. if x = r then r\<lparr>qty := qty r - q\<rparr> else x) (inventory db) \<and>
              select_by_item (item r) (inventory db') = Some (r\<lparr>qty := qty r - q\<rparr>) \<and>
              orders db' = orders db @
                [\<lparr>ord_id = next_rowid (map ord_id (orders db)), item_id = inv_id r, ord_qty = q,
                  ord_note = (if strip raw_note = [] then None else Some (strip raw_note)),
                  ordered_at = now\<rparr>])) \<and>
         (qty r < q \<longrightarrow>
            place_order raw_item q raw_note now db = (Printed ''Not enough stock for this order.'', db))"
proof -
  from assms have d1: "distinct (map inv_id (inventory db))" and d2: "distinct (map item (inventory db))"
    by (simp_all add: schema_ok_def)
  have sel: "select_by_item (strip raw_item) (inventory db) = Some r"
    using find_by_item [OF d2 assms(2)] assms(3) by (simp add: select_by_item_def)
  let ?tbl = "map (\<lambda>x. if x = r then r\<lparr>qty := qty r - q\<rparr> else x) (inventory db)"
  have dec: "decrement_qty q (inv_id r) (inventory db) = ?tbl"
    using map_by_id [OF d1 assms(2), of "\<lambda>x. x\<lparr>qty := qty x - q\<rparr>"] by (simp add: decrement_qty_def)
  have "\<And>x. item (if x = r then r\<lparr>qty := qty r - q\<rparr> else x) = item x" by simp
  then have "map item ?tbl = map item (inventory db)" by (simp add: comp_def)
  with d2 have d3: "distinct (map item ?tbl)" by metis
  have "r\<lparr>qty := qty r - q\<rparr> \<in> set ?tbl" using assms(2) by auto
  from find_by_item [OF d3 this]
  have sel': "select_by_item (item r) ?tbl = Some (r\<lparr>qty := qty r - q\<rparr>)"
    by (simp add: select_by_item_def)
  show ?thesis
    using sel sel' dec by (auto simp: place_order_def Let_def insert_order_def)
qed

theorem place_order_stock_witness:
  "schema_ok widget_db \<and>
   place_order ''Widget'' 3 ''rush'' ''2024-05-01T10:00:00'' widget_db =
     (Printed ''Order recorded for 3 units of Widget.'',
      \<lparr>inventory = [\<lparr>inv_id = 1, item = ''Widget'', category = ''Hardware'', qty = 2, reorder_level = 3\<rparr>],
       orders = [\<lparr>ord_id = 1, item_id = 1, ord_qty = 3, ord_note = Some ''rush'',
                  ordered_at = ''2024-05-01T10:00:00''\<rparr>]\<rparr>) \<and>
   place_order ''Widget'' 6 ''rush'' ''2024-05-01T10:00:00'' widget_db =
     (Printed ''Not enough stock for this order.'', widget_db)"
proof -
  let ?r = "\<lparr>inv_id = 1, item = ''Widget'', category = ''Hardware'', qty = 5, reorder_level = 3\<rparr>"
  have mem: "?r \<in> set (inventory widget_db)" by (simp add: widget_db_def)
  have nm: "item ?r = strip ''Widget''" by (simp add: strip_Widget)
  show ?thesis
    using schema_ok_widget_db
      place_order_stock [OF schema_ok_widget_db mem nm, of 3 "''rush''" "''2024-05-01T10:00:00''"]
      place_order_stock [OF schema_ok_widget_db mem nm, of 6 "''rush''" "''2024-05-01T10:00:00''"]
    by (auto simp: widget_db_def place_order_def select_by_item_def strip_def isspace_def
          str_of_int_digit digit_char_def)
qed

subsection \<open>Adjusting a quantity\<close>

text \<open>
  C3. When no stored quantity is negative before \<open>adjust_quantity\<close>, none is
  negative after it, whatever name, amount and direction are typed. When the name
  selects no item the action prints \<open>Item not found.\<close>, and when the new quantity
  would be negative it prints \<open>Cannot reduce below zero.\<close>; in both cases the
  database is left exactly as it was.
\<close>

theorem adjust_quantity_never_negative:
  assumes "list_all (\<lambda>r. 0 \<le> qty r) (inventory db)"
  shows "list_all (\<lambda>r. 0 \<le> qty r) (inventory (snd (adjust_quantity raw_item delta raw_direction db))) \<and>
         (select_by_item (strip raw_item) (inventory db) = None \<longrightarrow>
            adjust_quantity raw_item delta raw_direction db = (Printed ''Item not found.'', db)) \<and>
         (\<forall>r. select_by_item (strip raw_item) (inventory db) = Some r \<and>
               qty r + multiplier raw_direction * delta < 0 \<longrightarrow>
            adjust_quantity raw_item delta raw_direction db = (Printed ''Cannot reduce below zero.'', db))"
  using assms
  by (auto simp: adjust_quantity_def Let_def update_qty_def list_all_iff split: option.splits)

theorem adjust_quantity_never_negative_witness:
  "list_all (\<lambda>r. 0 \<le> qty r) (inventory widget_db) \<and>
   list_all (\<lambda>r. 0 \<le> qty r) (inventory (snd (adjust_quantity ''Widget'' 5 ''s'' widget_db))) \<and>
   adjust_quantity ''Gadget'' 1 ''a'' widget_db = (Printed ''Item not found.'', widget_db) \<and>
   adjust_quantity ''Widget'' 20 ''s'' widget_db = (Printed ''Cannot reduce below zero.'', widget_db)"
proof -
  have nn: "list_all (\<lambda>r. 0 \<le> qty r) (inventory widget_db)" by (simp add: widget_db_def)
  have none: "select_by_item (strip ''Gadget'') (inventory widget_db) = None"
    by (simp add: select_by_item_def widget_db_def strip_def isspace_def)
  have some: "select_by_item (strip ''Widget'') (inventory widget_db) = Some (hd (inventory widget_db))"
    by (simp add: select_by_item_def widget_db_def strip_Widget)
  have neg: "qty (hd (inventory widget_db)) + multiplier ''s'' * 20 < 0"
    by (simp add: widget_db_def multiplier_def string_eval)
  from adjust_quantity_never_negative [OF nn, of "''Widget''" 5 "''s''"]
  have a: "list_all (\<lambda>r. 0 \<le> qty r) (inventory (snd (adjust_quantity ''Widget'' 5 ''s'' widget_db)))"
    by blast
  from adjust_quantity_never_negative [OF nn, of "''Gadget''" 1 "''a''"] none
  have b: "adjust_quantity ''Gadget'' 1 ''a'' widget_db = (Printed ''Item not found.'', widget_db)"
    by blast
  from adjust_quantity_never_negative [OF nn, of "''Widget''" 20 "''s''"] some neg
  have c: "adjust_quantity ''Widget'' 20 ''s'' widget_db = (Printed ''Cannot reduce below zero.'', widget_db)"
    by blast
  from nn a b c show ?thesis by blast
qed

text \<open>
  C10. For the item the typed name selects, \<open>adjust_quantity\<close> computes the new
  quantity by adding the amount when the direction typed, stripped and lower-cased,
  is empty or starts with \<open>a\<close>, and by subtracting it for every other direction. A
  negative new quantity is refused with \<open>Cannot reduce below zero.\<close>, one above
  \<open>2^63 - 1\<close> ends the action with \<open>OverflowError\<close>, and in both cases nothing is
  stored; any other new quantity is stored and printed.
\<close>

theorem direction_sign:
  assumes "select_by_item (strip raw_item) (inventory db) = Some r"
  shows "multiplier raw_direction =
           (if lower (strip raw_direction) = [] \<or> hd (lower (strip raw_direction)) = CHR ''a''
            then 1 else - 1) \<and>
         adjust_quantity raw_item delta raw_direction db =
          (let d = lower (strip raw_direction);
               new_qty = (if d = [] \<or> hd d = CHR ''a'' then qty r + delta else qty r - delta)
           in if new_qty < 0 then (Printed ''Cannot reduce below zero.'', db)
              else if 9223372036854775807 < new_qty then (Raised OverflowError, db)
              else (Printed (strip raw_item @ '' now has '' @ str_of_int new_qty @ '' units.''),
                    db\<lparr>inventory := update_qty new_qty (inv_id r) (inventory db)\<rparr>))"
  using assms
  by (cases "lower (strip raw_direction)")
     (auto simp: adjust_quantity_def Let_def multiplier_def startswith_def in_int64_def)

theorem direction_sign_witness:
  "select_by_item (strip ''Widget'') (inventory widget_db) =
     Some \<lparr>inv_id = 1, item = ''Widget'', category = ''Hardware'', qty = 5, reorder_level = 3\<rparr> \<and>
   multiplier ''x'' = - 1 \<and> multiplier '' '' = 1 \<and> multiplier ''Add'' = 1 \<and>
   adjust_quantity ''Widget'' 2 ''x'' widget_db =
     (Printed ''Widget now has 3 units.'',
      \<lparr>inventory = [\<lparr>inv_id = 1, item = ''Widget'', category = ''Hardware'', qty = 3, reorder_level = 3\<rparr>],
       orders = []\<rparr>) \<and>
   adjust_quantity ''Widget'' 2 '' '' widget_db =
     (Printed ''Widget now has 7 units.'',
      \<lparr>inventory = [\<lparr>inv_id = 1, item = ''Widget'', category = ''Hardware'', qty = 7, reorder_level = 3\<rparr>],
       orders = []\<rparr>) \<and>
   adjust_quantity ''Widget'' 9 ''x'' widget_db = (Printed ''Cannot reduce below zero.'', widget_db) \<and>
   adjust_quantity ''Widget'' 9223372036854775807 ''add'' widget_db = (Raised OverflowError, widget_db)"
proof -
  let ?r = "\<lparr>inv_id = 1, item = ''Widget'', category = ''Hardware'', qty = 5, reorder_level = 3\<rparr>"
  have sel: "select_by_item (strip ''Widget'') (inventory widget_db) = Some ?r"
    by (simp add: select_by_item_def widget_db_def strip_Widget)
  have x: "lower (strip ''x'') = ''x''" and e: "lower (strip '' '') = []"
    and a: "lower (strip ''Add'') = ''add''" and b: "lower (strip ''add'') = ''add''"
    by (simp_all add: string_eval)
  show ?thesis
    using sel direction_sign [OF sel, of "''x''" 2] direction_sign [OF sel, of "'' ''" 2]
      direction_sign [OF sel, of "''Add''" 2] direction_sign [OF sel, of "''x''" 9]
      direction_sign [OF sel, of "''add''" 9223372036854775807]
    by (simp add: x e a b Let_def update_qty_def widget_db_def strip_Widget str_of_int_digit digit_char_def)
qed

subsection \<open>Adding or updating an item\<close>

lemma upsert_existing:
  assumes "filter (\<lambda>x. item x = n) tbl = [r]"
  shows "filter (\<lambda>x. item x = n) (upsert n c q rl tbl) = [r\<lparr>category := c, qty := q, reorder_level := rl\<rparr>]"
proof -
  let ?f = "\<lambda>x. if item x = n then x\<lparr>category := c, qty := q, reorder_level := rl\<rparr> else x"
  from assms have "r \<in> set (filter (\<lambda>x. item x = n) tbl)" by simp
  then have mem: "n \<in> set (map item tbl)" and nr: "item r = n" by auto
  have "filter (\<lambda>x. item x = n) (map ?f tbl) = map ?f (filter (\<lambda>x. item x = n) tbl)"
    by (induction tbl) auto
  with assms mem nr show ?thesis by (simp add: upsert_def)
qed

lemma upsert_new:
  assumes "n \<notin> set (map item tbl)"
  shows "filter (\<lambda>x. item x = n) (upsert n c q rl tbl) =
         [\<lparr>inv_id = next_rowid (map inv_id tbl), item = n, category = c, qty = q, reorder_level = rl\<rparr>]"
proof -
  from assms have "filter (\<lambda>x. item x = n) tbl = []" by (auto simp: filter_empty_conv)
  with assms show ?thesis by (simp add: upsert_def)
qed

lemma upsert_one_row:
  assumes "distinct (map item tbl)"
  shows "\<exists>r. filter (\<lambda>x. item x = n) (upsert n c q rl tbl) = [r]"
proof (cases "n \<in> set (map item tbl)")
  case True
  then obtain r where "r \<in> set tbl" and "item r = n" by auto
  with filter_by_item [OF assms, of r] have "filter (\<lambda>x. item x = n) tbl = [r]" by simp
  from upsert_existing [OF this] show ?thesis by blast
next
  case False
  from upsert_new [OF this] show ?thesis by blast
qed

text \<open>
  C4, as amended. Let two calls of \<open>add_or_update_item\<close> follow one another on a
  database that satisfies the schema, with names that strip to the same non-empty
  \<open>n\<close> and with numbers from 0 to \<open>2^63 - 1\<close>. After the first call the inventory has
  exactly one row named \<open>n\<close>; after the second it has exactly one row named \<open>n\<close>, with
  the id of the row after the first call and with the category (\<open>General\<close> when none
  is typed), quantity and reorder level of the second call.
\<close>

theorem upsert_twice:
  assumes "schema_ok db" and "strip raw1 = n" and "strip raw2 = n" and "n \<noteq> []"
    and "0 \<le> q1" and "q1 \<le> 9223372036854775807" and "0 \<le> rl1" and "rl1 \<le> 9223372036854775807"
    and "0 \<le> q2" and "q2 \<le> 9223372036854775807" and "0 \<le> rl2" and "rl2 \<le> 9223372036854775807"
  shows "\<exists>r1 r2.
          filter (\<lambda>x. item x = n) (inventory (snd (add_or_update_item raw1 c1 q1 rl1 db))) = [r1] \<and>
          filter (\<lambda>x. item x = n)
            (inventory (snd (add_or_update_item raw2 c2 q2 rl2
                         (snd (add_or_update_item raw1 c1 q1 rl1 db))))) = [r2] \<and>
          inv_id r2 = inv_id r1 \<and>
          category r2 = (if strip c2 = [] then ''General'' else strip c2) \<and>
          qty r2 = q2 \<and> reorder_level r2 = rl2"
proof -
  let ?cat1 = "if strip c1 = [] then ''General'' else strip c1"
  let ?cat2 = "if strip c2 = [] then ''General'' else strip c2"
  let ?db1 = "snd (add_or_update_item raw1 c1 q1 rl1 db)"
  let ?db2 = "snd (add_or_update_item raw2 c2 q2 rl2 ?db1)"
  from assms have inv1: "inventory ?db1 = upsert n ?cat1 q1 rl1 (inventory db)"
    by (simp add: add_or_update_item_def Let_def in_int64_def)
  from assms have inv2: "inventory ?db2 = upsert n ?cat2 q2 rl2 (inventory ?db1)"
    by (simp add: add_or_update_item_def Let_def in_int64_def)
  from assms(1) have "distinct (map item (inventory db))" by (simp add: schema_ok_def)
  from upsert_one_row [OF this] obtain r1
    where r1: "filter (\<lambda>x. item x = n) (upsert n ?cat1 q1 rl1 (inventory db)) = [r1]" by blast
  from upsert_existing [OF r1]
  have "filter (\<lambda>x. item x = n) (upsert n ?cat2 q2 rl2 (upsert n ?cat1 q1 rl1 (inventory db))) =
        [r1\<lparr>category := ?cat2, qty := q2, reorder_level := rl2\<rparr>]" .
  with r1 inv1 inv2 show ?thesis by simp
qed

theorem upsert_twice_witness:
  "schema_ok widget_db \<and> strip ''Widget'' = ''Widget'' \<and> strip '' Widget '' = ''Widget'' \<and>
   (\<exists>r1 r2.
      filter (\<lambda>x. item x = ''Widget'')
        (inventory (snd (add_or_update_item ''Widget'' ''Tools'' 10 4 widget_db))) = [r1] \<and>
      filter (\<lambda>x. item x = ''Widget'')
        (inventory (snd (add_or_update_item '' Widget '' '' '' 7 0
                     (snd (add_or_update_item ''Widget'' ''Tools'' 10 4 widget_db))))) = [r2] \<and>
      inv_id r2 = inv_id r1 \<and> category r2 = ''General'' \<and> qty r2 = 7 \<and> reorder_level r2 = 0)"
proof -
  have s2: "strip '' Widget '' = ''Widget''" and s3: "strip '' '' = []"
    by (simp_all add: strip_def isspace_def)
  have ne: "''Widget'' \<noteq> []" by simp
  have p: "(0::int) \<le> 10" "(10::int) \<le> 9223372036854775807"
    "(0::int) \<le> 4" "(4::int) \<le> 9223372036854775807"
    "(0::int) \<le> 7" "(7::int) \<le> 9223372036854775807"
    "(0::int) \<le> 0" "(0::int) \<le> 9223372036854775807" by simp_all
  from upsert_twice [OF schema_ok_widget_db strip_Widget s2 ne p, of "''Tools''" "'' ''"]
  show ?thesis using schema_ok_widget_db strip_Widget s2 s3 by simp
qed

text \<open>
  C4 as stated fails for a number that SQLite cannot store. After
  \<open>add_or_update_item\<close> for Widget with quantity 5, a second call for Widget with
  quantity \<open>2^63\<close>, which \<open>prompt_int\<close> accepts, ends with \<open>OverflowError\<close> and the
  row keeps the category, quantity and reorder level of the first call.
\<close>

theorem upsert_overflow_counterexample:
  "snd (add_or_update_item ''Widget'' ''Hardware'' 5 3 create_tables) = widget_db \<and>
   add_or_update_item ''Widget'' ''Tools'' 9223372036854775808 4 widget_db =
     (Raised OverflowError, widget_db) \<and>
   filter (\<lambda>x. item x = ''Widget'') (inventory widget_db) =
     [\<lparr>inv_id = 1, item = ''Widget'', category = ''Hardware'', qty = 5, reorder_level = 3\<rparr>]"
proof -
  have h: "strip ''Hardware'' = ''Hardware''" and t: "strip ''Tools'' = ''Tools''"
    by (simp_all add: strip_def isspace_def)
  have "snd (add_or_update_item ''Widget'' ''Hardware'' 5 3 create_tables) = widget_db"
    by (simp add: add_or_update_item_def strip_Widget h in_int64_def create_tables_def
          upsert_def widget_db_def)
  moreover have "add_or_update_item ''Widget'' ''Tools'' 9223372036854775808 4 widget_db =
     (Raised OverflowError, widget_db)"
    by (simp add: add_or_update_item_def strip_Widget t in_int64_def)
  moreover have "filter (\<lambda>x. item x = ''Widget'') (inventory widget_db) =
     [\<lparr>inv_id = 1, item = ''Widget'', category = ''Hardware'', qty = 5, reorder_level = 3\<rparr>]"
    by (simp add: widget_db_def)
  ultimately show ?thesis by (intro conjI)
qed

subsection \<open>Listings\<close>

lemma rows_of_report: "rows_of (report msg rows) = rows"
  by (simp add: report_def)

lemma low_stock_rows:
  "rows_of (view_low_stock db) =
     map (\<lambda>r. (item r, qty r, reorder_level r))
       (sort_key qty (filter (\<lambda>r. qty r \<le> reorder_level r) (inventory db)))"
  by (simp add: view_low_stock_def rows_of_report)

lemma filter_low_stock:
  "filter (\<lambda>(i, q, rl). q \<le> rl) (map (\<lambda>r. (item r, qty r, reorder_level r)) tbl) =
   map (\<lambda>r. (item r, qty r, reorder_level r)) (filter (\<lambda>r. qty r \<le> reorder_level r) tbl)"
  by (induction tbl) simp_all

lemma low_stock_mset:
  "mset (rows_of (view_low_stock db)) =
     filter_mset (\<lambda>(i, q, rl). q \<le> rl)
       (mset (map (\<lambda>r. (item r, qty r, reorder_level r)) (inventory db)))"
proof -
  have "filter_mset (\<lambda>(i, q, rl). q \<le> rl)
       (mset (map (\<lambda>r. (item r, qty r, reorder_level r)) (inventory db))) =
     mset (filter (\<lambda>(i, q, rl). q \<le> rl) (map (\<lambda>r. (item r, qty r, reorder_level r)) (inventory db)))"
    by (rule mset_filter [symmetric])
  also have "\<dots> = mset (map (\<lambda>r. (item r, qty r, reorder_level r))
      (filter (\<lambda>r. qty r \<le> reorder_level r) (inventory db)))"
    by (simp only: filter_low_stock)
  also have "\<dots> = mset (rows_of (view_low_stock db))"
    by (simp only: low_stock_rows mset_map mset_sort)
  finally show ?thesis by (rule sym)
qed


lemma low_stock_sorted:
  "sorted (map (\<lambda>(i, q, rl). q) (rows_of (view_low_stock db)))"
proof -
  have "map (\<lambda>(i, q, rl). q) (rows_of (view_low_stock db)) =
        map qty (sort_key qty (filter (\<lambda>r. qty r \<le> reorder_level r) (inventory db)))"
    by (simp add: low_stock_rows)
  then show ?thesis by (simp only: sorted_sort_key)
qed

lemma sorted_same_mset:
  fixes xs ys :: "int list"
  assumes "sorted xs" and "sorted ys" and "mset xs = mset ys"
  shows "xs = ys"
  using properties_for_sort [OF assms(3) assms(1)] properties_for_sort [OF refl assms(2)]
  by simp

subsection \<open>The low-stock report\<close>

text \<open>
  C5. The rows \<open>view_low_stock\<close> lists are exactly the \<open>(item, qty, reorder_level)\<close>
  triples of the inventory whose quantity is at most their reorder level, each as
  often as it is stored, and they come by ascending quantity. Two inventories that
  hold the same triples, inserted in whatever order, give the same rows up to the
  order of rows of equal quantity, and the same sequence of quantities.
\<close>

theorem low_stock_exact:
  "mset (rows_of (view_low_stock db)) =
     filter_mset (\<lambda>(i, q, rl). q \<le> rl)
       (mset (map (\<lambda>r. (item r, qty r, reorder_level r)) (inventory db))) \<and>
   sorted (map (\<lambda>(i, q, rl). q) (rows_of (view_low_stock db))) \<and>
   (\<forall>db'. mset (map (\<lambda>r. (item r, qty r, reorder_level r)) (inventory db')) =
           mset (map (\<lambda>r. (item r, qty r, reorder_level r)) (inventory db)) \<longrightarrow>
      mset (rows_of (view_low_stock db')) = mset (rows_of (view_low_stock db)) \<and>
      map (\<lambda>(i, q, rl). q) (rows_of (view_low_stock db')) =
        map (\<lambda>(i, q, rl). q) (rows_of (view_low_stock db)))"
proof (intro conjI allI impI)
  show "mset (rows_of (view_low_stock db)) =
     filter_mset (\<lambda>(i, q, rl). q \<le> rl)
       (mset (map (\<lambda>r. (item r, qty r, reorder_level r)) (inventory db)))"
    by (rule low_stock_mset)
  show "sorted (map (\<lambda>(i, q, rl). q) (rows_of (view_low_stock db)))"
    by (rule low_stock_sorted)
  fix db' :: database
  assume same: "mset (map (\<lambda>r. (item r, qty r, reorder_level r)) (inventory db')) =
           mset (map (\<lambda>r. (item r, qty r, reorder_level r)) (inventory db))"
  show rows: "mset (rows_of (view_low_stock db')) = mset (rows_of (view_low_stock db))"
    by (simp only: low_stock_mset same)
  have "mset (map (\<lambda>(i, q, rl). q) (rows_of (view_low_stock db'))) =
        mset (map (\<lambda>(i, q, rl). q) (rows_of (view_low_stock db)))"
    by (simp only: mset_map rows)
  then show "map (\<lambda>(i, q, rl). q) (rows_of (view_low_stock db')) =
        map (\<lambda>(i, q, rl). q) (rows_of (view_low_stock db))"
    by (rule sorted_same_mset [OF low_stock_sorted low_stock_sorted])
qed


subsection \<open>The summary\<close>

lemma sum_list_miss:
  "x \<notin> set cs \<Longrightarrow> sum_list (map (\<lambda>c. if x = c then v else (0::int)) cs) = 0"
  by (induction cs) auto

lemma sum_list_pick:
  "distinct cs \<Longrightarrow> x \<in> set cs \<Longrightarrow> sum_list (map (\<lambda>c. if x = c then v else (0::int)) cs) = v"
  by (induction cs) (auto simp: sum_list_miss)

lemma sum_list_by_group:
  assumes "distinct cs" and "set (map k tbl) \<subseteq> set cs"
  shows "sum_list (map (\<lambda>c. sum_list (map f (filter (\<lambda>r. k r = c) tbl))) cs) = (sum_list (map f tbl) :: int)"
  using assms(2)
proof (induction tbl)
  case Nil
  then show ?case by simp
next
  case (Cons a tbl)
  have "sum_list (map (\<lambda>c. sum_list (map f (filter (\<lambda>r. k r = c) (a # tbl)))) cs) =
        sum_list (map (\<lambda>c. (if k a = c then f a else 0) + sum_list (map f (filter (\<lambda>r. k r = c) tbl))) cs)"
    by (rule arg_cong [where f = sum_list], rule map_cong) auto
  also have "\<dots> = sum_list (map (\<lambda>c. if k a = c then f a else 0) cs) +
        sum_list (map (\<lambda>c. sum_list (map f (filter (\<lambda>r. k r = c) tbl))) cs)"
    by (simp add: sum_list_addf)
  also have "\<dots> = f a + sum_list (map f tbl)"
    using Cons assms(1) by (simp add: sum_list_pick)
  finally show ?case by simp
qed

lemma length_as_sum: "int (length xs) = sum_list (map (\<lambda>r. 1) xs)"
  by (induction xs) auto

lemma mset_sort_key_desc: "mset (sort_key_desc k rows) = mset rows"
  by (simp add: sort_key_desc_def)

lemma set_sort_key_desc: "set (sort_key_desc k rows) = set rows"
  by (simp add: sort_key_desc_def)

lemma distinct_map_sort_key_desc: "distinct (map f (sort_key_desc k rows)) = distinct (map f rows)"
proof -
  have "mset (map f (sort_key_desc k rows)) = mset (map f rows)"
    by (simp only: mset_map mset_sort_key_desc)
  then show ?thesis by (rule mset_eq_imp_distinct_iff)
qed

lemma sum_list_sort_key_desc: "sum_list (map f (sort_key_desc k rows)) = (sum_list (map f rows) :: int)"
proof -
  have "mset (map f (sort_key_desc k rows)) = mset (map f rows)"
    by (simp only: mset_map mset_sort_key_desc)
  then have "sum_mset (mset (map f (sort_key_desc k rows))) = sum_mset (mset (map f rows))"
    by (rule arg_cong)
  then show ?thesis by (simp only: sum_mset_sum_list)
qed

lemma sorted_sort_key_desc: "sorted (rev (map k (sort_key_desc k rows)))"
  by (simp add: sort_key_desc_def rev_map [symmetric])

lemma sum_int64_in_range:
  "list_all (\<lambda>x. 0 \<le> x) xs \<Longrightarrow> 0 \<le> acc \<Longrightarrow> acc + sum_list xs \<le> 9223372036854775807 \<Longrightarrow>
   sum_int64 acc xs = Some (acc + sum_list xs)"
proof (induction xs arbitrary: acc)
  case Nil
  then show ?case by simp
next
  case (Cons x xs)
  from Cons.prems have x: "0 \<le> x" and xs: "list_all (\<lambda>x. 0 \<le> x) xs" by simp_all
  from xs have "0 \<le> sum_list xs" by (induction xs) auto
  with Cons.prems x have "in_int64 (acc + x)" by (simp add: in_int64_def)
  moreover from Cons.prems x xs have "sum_int64 (acc + x) xs = Some (acc + x + sum_list xs)"
    by (intro Cons.IH) simp_all
  ultimately show ?case by simp
qed

lemma sqlite_sum_in_range:
  "list_all (\<lambda>x. 0 \<le> x) xs \<Longrightarrow> sum_list xs \<le> 9223372036854775807 \<Longrightarrow>
   sqlite_sum xs = Some (sum_list xs)"
  using sum_int64_in_range [of xs 0] by (simp add: sqlite_sum_def)

lemma sum_list_filter_le:
  "list_all (\<lambda>r. 0 \<le> f r) tbl \<Longrightarrow> sum_list (map f (filter P tbl)) \<le> (sum_list (map f tbl) :: int)"
  by (induction tbl) auto

lemma those_all_Some:
  "(\<And>x. x \<in> set xs \<Longrightarrow> h x = Some (k x)) \<Longrightarrow> those (map h xs) = Some (map k xs)"
  by (induction xs) simp_all

lemma groups_in_range:
  assumes "list_all (\<lambda>r. 0 \<le> qty r) tbl" and "sum_list (map qty tbl) \<le> 9223372036854775807"
  shows "group_by_category tbl =
    Some (map (\<lambda>c. (c, int (length (filter (\<lambda>r. category r = c) tbl)),
                       sum_list (map qty (filter (\<lambda>r. category r = c) tbl))))
              (sort (remdups (map category tbl))))"
  unfolding group_by_category_def
proof (rule those_all_Some)
  fix c
  have nn: "list_all (\<lambda>x. 0 \<le> x) (map qty (filter (\<lambda>r. category r = c) tbl))"
    using assms(1) by (auto simp: list_all_iff)
  have "sum_list (map qty (filter (\<lambda>r. category r = c) tbl)) \<le> sum_list (map qty tbl)"
    by (rule sum_list_filter_le [OF assms(1)])
  with assms(2) have "sum_list (map qty (filter (\<lambda>r. category r = c) tbl)) \<le> 9223372036854775807"
    by simp
  from sqlite_sum_in_range [OF nn this]
  show "map_option (\<lambda>s. (c, int (length (filter (\<lambda>r. category r = c) tbl)), s))
          (sqlite_sum (map qty (filter (\<lambda>r. category r = c) tbl))) =
        Some (c, int (length (filter (\<lambda>r. category r = c) tbl)),
                 sum_list (map qty (filter (\<lambda>r. category r = c) tbl)))"
    by simp
qed

lemma group_counts:
  "sum_list (map (\<lambda>c. int (length (filter (\<lambda>r. category r = c) tbl))) (sort (remdups (map category tbl)))) =
   int (length tbl)"
proof -
  have "sum_list (map (\<lambda>c. int (length (filter (\<lambda>r. category r = c) tbl))) (sort (remdups (map category tbl)))) =
        sum_list (map (\<lambda>c. sum_list (map (\<lambda>r. 1) (filter (\<lambda>r. category r = c) tbl)))
                      (sort (remdups (map category tbl))))"
    by (simp only: length_as_sum)
  also have "\<dots> = sum_list (map (\<lambda>r. 1) tbl)"
    by (rule sum_list_by_group) simp_all
  finally show ?thesis by (simp only: length_as_sum)
qed

lemma group_sums:
  "sum_list (map (\<lambda>c. sum_list (map qty (filter (\<lambda>r. category r = c) tbl))) (sort (remdups (map category tbl)))) =
   sum_list (map qty tbl)"
  by (rule sum_list_by_group) simp_all

lemma group_measures:
  "int (length (filter (\<lambda>r. category r = c) tbl)) = int (size (filter_mset (\<lambda>r. category r = c) (mset tbl)))"
  "sum_list (map qty (filter (\<lambda>r. category r = c) tbl)) =
     sum_mset (image_mset qty (filter_mset (\<lambda>r. category r = c) (mset tbl)))"
proof -
  show "int (length (filter (\<lambda>r. category r = c) tbl)) = int (size (filter_mset (\<lambda>r. category r = c) (mset tbl)))"
    by (simp only: mset_filter [symmetric] size_mset)
  show "sum_list (map qty (filter (\<lambda>r. category r = c) tbl)) =
     sum_mset (image_mset qty (filter_mset (\<lambda>r. category r = c) (mset tbl)))"
    by (simp only: mset_filter [symmetric] mset_map [symmetric] sum_mset_sum_list)
qed

text \<open>
  C8, as amended. Let the quantities of the inventory be non-negative, as the schema
  requires, and add up to at most \<open>2^63 - 1\<close>. Then \<open>inventory_summary\<close> returns the
  number of items and the sum of their quantities, both 0 right after
  \<open>create_tables\<close>. Its groups name every category of the inventory once; each gives
  the number of items of its category and the sum of their quantities; the groups
  come by descending sum; and the counts and the sums of the groups add up to the two
  totals.
\<close>

theorem summary_totals_and_groups:
  assumes "list_all (\<lambda>r. 0 \<le> qty r) (inventory db)"
    and "sum_list (map qty (inventory db)) \<le> 9223372036854775807"
  shows "inventory_summary create_tables = Inr ((0, 0), []) \<and>
   (\<exists>groups.
     inventory_summary db =
       Inr ((int (length (inventory db)), sum_list (map qty (inventory db))), groups) \<and>
     distinct (map fst groups) \<and>
     set (map fst groups) = category ` set (inventory db) \<and>
     (\<forall>(c, n, s) \<in> set groups.
        n = int (size (filter_mset (\<lambda>r. category r = c) (mset (inventory db)))) \<and>
        s = sum_mset (image_mset qty (filter_mset (\<lambda>r. category r = c) (mset (inventory db))))) \<and>
     sorted (rev (map (\<lambda>(c, n, s). s) groups)) \<and>
     sum_list (map (\<lambda>(c, n, s). n) groups) = int (length (inventory db)) \<and>
     sum_list (map (\<lambda>(c, n, s). s) groups) = sum_list (map qty (inventory db)))"
proof
  show "inventory_summary create_tables = Inr ((0, 0), [])"
    by (simp add: inventory_summary_def create_tables_def group_by_category_def sort_key_desc_def
          sqlite_sum_def)
next
  let ?tbl = "inventory db"
  let ?cs = "sort (remdups (map category ?tbl))"
  let ?g = "map (\<lambda>c. (c, int (length (filter (\<lambda>r. category r = c) ?tbl)),
                       sum_list (map qty (filter (\<lambda>r. category r = c) ?tbl)))) ?cs"
  let ?groups = "sort_key_desc (\<lambda>(c, n, s). s) ?g"
  have nn: "list_all (\<lambda>x. 0 \<le> x) (map qty ?tbl)" using assms(1) by (auto simp: list_all_iff)
  have tot: "sqlite_sum (map qty ?tbl) = Some (sum_list (map qty ?tbl))"
    by (rule sqlite_sum_in_range [OF nn assms(2)])
  have grp: "group_by_category ?tbl = Some ?g"
    by (rule groups_in_range [OF assms])
  have res: "inventory_summary db = Inr ((int (length ?tbl), sum_list (map qty ?tbl)), ?groups)"
    by (simp add: inventory_summary_def tot grp)
  have names: "map fst ?g = ?cs" by (simp add: comp_def)
  have d: "distinct (map fst ?groups)"
    by (simp only: distinct_map_sort_key_desc names distinct_sort distinct_remdups)
  have st: "set (map fst ?groups) = category ` set ?tbl"
  proof -
    have "set (map fst ?groups) = set (map fst ?g)"
      by (simp only: set_map set_sort_key_desc)
    also have "\<dots> = category ` set ?tbl"
      by (simp only: names set_sort set_remdups set_map)
    finally show ?thesis .
  qed
  have mem: "\<forall>(c, n, s) \<in> set ?groups.
        n = int (size (filter_mset (\<lambda>r. category r = c) (mset ?tbl))) \<and>
        s = sum_mset (image_mset qty (filter_mset (\<lambda>r. category r = c) (mset ?tbl)))"
    by (auto simp: set_sort_key_desc group_measures)
  have srt: "sorted (rev (map (\<lambda>(c, n, s). s) ?groups))"
    by (rule sorted_sort_key_desc)
  have cnt: "sum_list (map (\<lambda>(c, n, s). n) ?groups) = int (length ?tbl)"
  proof -
    have "sum_list (map (\<lambda>(c, n, s). n) ?g) =
        sum_list (map (\<lambda>c. int (length (filter (\<lambda>r. category r = c) ?tbl))) ?cs)"
      by (simp add: comp_def)
    then show ?thesis by (simp only: sum_list_sort_key_desc group_counts)
  qed
  have sm: "sum_list (map (\<lambda>(c, n, s). s) ?groups) = sum_list (map qty ?tbl)"
  proof -
    have "sum_list (map (\<lambda>(c, n, s). s) ?g) =
        sum_list (map (\<lambda>c. sum_list (map qty (filter (\<lambda>r. category r = c) ?tbl))) ?cs)"
      by (simp add: comp_def)
    then show ?thesis by (simp only: sum_list_sort_key_desc group_sums)
  qed
  from res d st mem srt cnt sm
  show "\<exists>groups.
     inventory_summary db =
       Inr ((int (length (inventory db)), sum_list (map qty (inventory db))), groups) \<and>
     distinct (map fst groups) \<and>
     set (map fst groups) = category ` set (inventory db) \<and>
     (\<forall>(c, n, s) \<in> set groups.
        n = int (size (filter_mset (\<lambda>r. category r = c) (mset (inventory db)))) \<and>
        s = sum_mset (image_mset qty (filter_mset (\<lambda>r. category r = c) (mset (inventory db))))) \<and>
     sorted (rev (map (\<lambda>(c, n, s). s) groups)) \<and>
     sum_list (map (\<lambda>(c, n, s). n) groups) = int (length (inventory db)) \<and>
     sum_list (map (\<lambda>(c, n, s). s) groups) = sum_list (map qty (inventory db))"
    by (intro exI [of _ ?groups] conjI)
qed


lemma shop_rows:
  "map (\<lambda>r. (item r, qty r, reorder_level r)) (inventory shop_db) =
     [(''Widget'', 5, 3), (''Bolt'', 2, 10), (''Tape'', 0, 0)]"
  "map (\<lambda>r. (item r, qty r, reorder_level r)) (inventory shop_db_reordered) =
     [(''Tape'', 0, 0), (''Widget'', 5, 3), (''Bolt'', 2, 10)]"
  by (simp_all add: shop_db_def shop_db_reordered_def)

lemma shop_same_items:
  "mset (map (\<lambda>r. (item r, qty r, reorder_level r)) (inventory shop_db_reordered)) =
     mset (map (\<lambda>r. (item r, qty r, reorder_level r)) (inventory shop_db))"
  unfolding shop_rows by (simp add: add_mset_commute)

lemma shop_low_stock: "rows_of (view_low_stock shop_db) = [(''Tape'', 0, 0), (''Bolt'', 2, 10)]"
  by (simp add: shop_db_def view_low_stock_def report_def)


theorem low_stock_exact_witness:
  "mset (map (\<lambda>r. (item r, qty r, reorder_level r)) (inventory shop_db_reordered)) =
     mset (map (\<lambda>r. (item r, qty r, reorder_level r)) (inventory shop_db)) \<and>
   rows_of (view_low_stock shop_db) = [(''Tape'', 0, 0), (''Bolt'', 2, 10)] \<and>
   mset (rows_of (view_low_stock shop_db_reordered)) = mset (rows_of (view_low_stock shop_db))"
proof -
  from low_stock_exact [of shop_db] shop_same_items
  have "mset (rows_of (view_low_stock shop_db_reordered)) = mset (rows_of (view_low_stock shop_db))"
    by blast
  with shop_same_items shop_low_stock show ?thesis by (intro conjI)
qed

lemma shop_summary:
  "inventory_summary shop_db = Inr ((3, 7), [(''Hardware'', 2, 7), (''Office'', 1, 0)])"
  by (simp add: inventory_summary_def shop_db_def group_by_category_def sort_key_desc_def
        sqlite_sum_def in_int64_def)

theorem summary_totals_and_groups_witness:
  "list_all (\<lambda>r. 0 \<le> qty r) (inventory shop_db) \<and>
   sum_list (map qty (inventory shop_db)) \<le> 9223372036854775807 \<and>
   inventory_summary shop_db = Inr ((3, 7), [(''Hardware'', 2, 7), (''Office'', 1, 0)]) \<and>
   int (size (filter_mset (\<lambda>r. category r = ''Hardware'') (mset (inventory shop_db)))) = 2 \<and>
   sum_mset (image_mset qty (filter_mset (\<lambda>r. category r = ''Hardware'') (mset (inventory shop_db)))) = 7"
proof -
  have nn: "list_all (\<lambda>r. 0 \<le> qty r) (inventory shop_db)" by (simp add: shop_db_def)
  have le: "sum_list (map qty (inventory shop_db)) \<le> 9223372036854775807" by (simp add: shop_db_def)
  from summary_totals_and_groups [OF nn le] obtain groups
    where g: "inventory_summary shop_db =
        Inr ((int (length (inventory shop_db)), sum_list (map qty (inventory shop_db))), groups)"
      and m: "\<forall>(c, n, s) \<in> set groups.
        n = int (size (filter_mset (\<lambda>r. category r = c) (mset (inventory shop_db)))) \<and>
        s = sum_mset (image_mset qty (filter_mset (\<lambda>r. category r = c) (mset (inventory shop_db))))"
    by blast
  from g have "groups = [(''Hardware'', 2, 7), (''Office'', 1, 0)]" by (simp add: shop_summary)
  then have "(''Hardware'', 2, 7) \<in> set groups" by simp
  with m have "2 = int (size (filter_mset (\<lambda>r. category r = ''Hardware'') (mset (inventory shop_db)))) \<and>
        7 = sum_mset (image_mset qty (filter_mset (\<lambda>r. category r = ''Hardware'') (mset (inventory shop_db))))"
    by blast
  with nn le shop_summary show ?thesis by simp
qed

text \<open>
  C8 as stated fails where the quantities add up to more than SQLite's integers hold.
  \<open>overflow_db\<close> satisfies the schema, and on it \<open>SUM(qty)\<close> overflows: the summary
  ends with \<open>OperationalError\<close> and returns nothing.
\<close>

theorem summary_overflow_counterexample:
  "schema_ok overflow_db \<and>
   sum_list (map qty (inventory overflow_db)) = 9223372036854775808 \<and>
   inventory_summary overflow_db = Inl OperationalError"
  by (simp add: schema_ok_def overflow_db_def inventory_summary_def sqlite_sum_def in_int64_def)

lemma widget_order_placed:
  "snd (place_order ''Widget'' 3 ''rush'' ''2024-05-01T10:00:00'' widget_db) = widget_ordered_db"
  by (simp add: widget_db_def widget_ordered_db_def place_order_def select_by_item_def strip_def
        isspace_def decrement_qty_def insert_order_def)

lemma widget_deleted:
  "snd (delete_item ''Widget'' widget_ordered_db) = \<lparr>inventory = [], orders = orders widget_ordered_db\<rparr>"
  by (simp add: widget_ordered_db_def delete_item_def delete_by_item_def strip_Widget)

subsection \<open>Deleting an item and the order history\<close>

text \<open>
  C2. The claim fails on the code. From \<open>widget_db\<close>, an order for three units of
  Widget is listed by \<open>view_orders\<close>. After \<open>delete_item\<close> for Widget the inventory
  listing is empty and the order row is still stored, unchanged, but \<open>view_orders\<close>
  prints \<open>No orders recorded.\<close>: its inner join drops every order whose item is gone,
  while \<open>delete_item\<close> prints that the order history remains for auditing.
\<close>

theorem delete_item_hides_orders:
  "view_orders (snd (place_order ''Widget'' 3 ''rush'' ''2024-05-01T10:00:00'' widget_db)) =
     Listing [(1, ''Widget'', 3, Some ''rush'', ''2024-05-01T10:00:00'')] \<and>
   orders (snd (delete_item ''Widget'' (snd (place_order ''Widget'' 3 ''rush'' ''2024-05-01T10:00:00'' widget_db)))) =
     [\<lparr>ord_id = 1, item_id = 1, ord_qty = 3, ord_note = Some ''rush'', ordered_at = ''2024-05-01T10:00:00''\<rparr>] \<and>
   view_inventory (snd (delete_item ''Widget'' (snd (place_order ''Widget'' 3 ''rush'' ''2024-05-01T10:00:00'' widget_db)))) =
     Message ''Inventory is empty.'' \<and>
   view_orders (snd (delete_item ''Widget'' (snd (place_order ''Widget'' 3 ''rush'' ''2024-05-01T10:00:00'' widget_db)))) =
     Message ''No orders recorded.''"
  unfolding widget_order_placed widget_deleted
  by (simp add: widget_ordered_db_def view_orders_def join_orders_def
        view_inventory_def select_inventory_def report_def sort_key_desc_def)

lemma shop_widget_deleted:
  "snd (delete_item ''Widget'' shop_db) =
    \<lparr>inventory =
       [\<lparr>inv_id = 2, item = ''Bolt'', category = ''Hardware'', qty = 2, reorder_level = 10\<rparr>,
        \<lparr>inv_id = 3, item = ''Tape'', category = ''Office'', qty = 0, reorder_level = 0\<rparr>],
     orders = orders shop_db\<rparr>"
  by (simp add: shop_db_def delete_item_def delete_by_item_def strip_Widget)

text \<open>
  C9. The claim fails on the code, by the same inner join. \<open>shop_db\<close> holds two
  orders, and \<open>view_orders\<close> lists both, newest first. After \<open>delete_item\<close> for
  Widget the orders table still holds two rows, and \<open>view_orders\<close> lists one.
\<close>

theorem view_orders_omits_orphans:
  "length (orders (snd (delete_item ''Widget'' shop_db))) = 2 \<and>
   view_orders shop_db =
     Listing [(2, ''Bolt'', 1, None, ''2024-05-02T09:30:00''),
              (1, ''Widget'', 3, Some ''rush'', ''2024-05-01T10:00:00'')] \<and>
   view_orders (snd (delete_item ''Widget'' shop_db)) =
     Listing [(2, ''Bolt'', 1, None, ''2024-05-02T09:30:00'')]"
  unfolding shop_widget_deleted
  by (simp add: shop_db_def view_orders_def join_orders_def report_def sort_key_desc_def)

subsection \<open>Searching\<close>

lemma like_percent: "like ''%'' s"
  by (induction s) simp_all

lemma sqlite_lower_Cons: "sqlite_lower (c # cs) = sqlite_lower [c] @ sqlite_lower cs"
  by (simp add: sqlite_lower_def)

lemma sqlite_lower_Nil: "sqlite_lower [] = []"
  by (simp add: sqlite_lower_def)

lemma sqlite_lower_single: "sqlite_lower [p] = sqlite_lower [c] \<longleftrightarrow>
    lower_by ascii_upper_letters ascii_lower_letters p = lower_by ascii_upper_letters ascii_lower_letters c"
  by (simp add: sqlite_lower_def)

lemma like_literal_prefix:
  assumes "CHR ''%'' \<notin> set t" and "CHR ''_'' \<notin> set t"
  shows "like (t @ ''%'') s \<longleftrightarrow> prefix (sqlite_lower t) (sqlite_lower s)"
  using assms
proof (induction t arbitrary: s)
  case Nil
  then show ?case by (simp add: like_percent sqlite_lower_Nil)
next
  case (Cons p t)
  show ?case
  proof (cases s)
    case Nil
    with Cons.prems show ?thesis by (auto simp: sqlite_lower_def)
  next
    case (Cons c cs)
    with Cons.prems Cons.IH [of cs] show ?thesis
      by (auto simp: sqlite_lower_def)
  qed
qed

lemma like_contains:
  assumes "CHR ''%'' \<notin> set t" and "CHR ''_'' \<notin> set t"
  shows "like (''%'' @ t @ ''%'') s \<longleftrightarrow> sublist (sqlite_lower t) (sqlite_lower s)"
proof (induction s)
  case Nil
  have "like (t @ ''%'') [] \<longleftrightarrow> t = []"
    using like_literal_prefix [OF assms, of "[]"] by (simp add: sqlite_lower_def)
  then show ?case by (simp add: sqlite_lower_def)
next
  case (Cons c cs)
  have "like (''%'' @ t @ ''%'') (c # cs) \<longleftrightarrow> like (t @ ''%'') (c # cs) \<or> like (''%'' @ t @ ''%'') cs"
    by simp
  also have "\<dots> \<longleftrightarrow> prefix (sqlite_lower t) (sqlite_lower (c # cs)) \<or> sublist (sqlite_lower t) (sqlite_lower cs)"
    by (simp only: like_literal_prefix [OF assms] Cons.IH)
  also have "\<dots> \<longleftrightarrow> sublist (sqlite_lower t) (sqlite_lower (c # cs))"
    by (simp add: sqlite_lower_def sublist_Cons_right)
  finally show ?case .
qed


lemma ascii_lower_not_upper: "l \<in> set ascii_lower_letters \<Longrightarrow> l \<notin> set ascii_upper_letters"
  by (auto simp: ascii_lower_letters_def ascii_upper_letters_def)

lemma lower_by_ascii_idem:
  "lower_by ascii_upper_letters ascii_lower_letters (lower_by ascii_upper_letters ascii_lower_letters c) =
   lower_by ascii_upper_letters ascii_lower_letters c"
proof (cases "map_of (zip ascii_upper_letters ascii_lower_letters) c")
  case None
  then show ?thesis by (simp add: lower_by_def)
next
  case (Some l)
  then have "(c, l) \<in> set (zip ascii_upper_letters ascii_lower_letters)" by (rule map_of_SomeD)
  then have "l \<in> set ascii_lower_letters" by (rule set_zip_rightD)
  then have "l \<notin> set ascii_upper_letters" by (rule ascii_lower_not_upper)
  then have "l \<notin> fst ` set (zip ascii_upper_letters ascii_lower_letters)"
    by (auto dest: set_zip_leftD)
  then have "map_of (zip ascii_upper_letters ascii_lower_letters) l = None"
    by (simp only: map_of_eq_None_iff not_False_eq_True)
  with Some show ?thesis by (simp add: lower_by_def)
qed

lemma sqlite_lower_idem: "sqlite_lower (sqlite_lower s) = sqlite_lower s"
  by (simp add: sqlite_lower_def lower_by_ascii_idem)

text \<open>What the search does find: for a term without \<open>%\<close> and \<open>_\<close>, short enough for
  SQLite, the items whose name or category contains the stripped, lower-cased term,
  the case of ASCII letters ignored.\<close>

lemma search_without_wildcards:
  assumes "strip raw_term \<noteq> []"
    and "CHR ''%'' \<notin> set (lower (strip raw_term))" and "CHR ''_'' \<notin> set (lower (strip raw_term))"
    and "utf8_length (''%'' @ lower (strip raw_term) @ ''%'') \<le> 50000"
  shows "search_inventory raw_term db =
    Inr (report ''No matching items found.''
      (map (\<lambda>r. (item r, category r, qty r, reorder_level r))
        (sort_key item
          (filter (\<lambda>r. contains_ignoring_ascii_case (item r) (lower (strip raw_term)) \<or>
                        contains_ignoring_ascii_case (category r) (lower (strip raw_term)))
            (inventory db)))))"
proof -
  let ?t = "lower (strip raw_term)"
  from assms(1) have ne: "?t \<noteq> []" by (simp add: lower_def)
  have m: "like (''%'' @ ?t @ ''%'') (sqlite_lower s) = contains_ignoring_ascii_case s ?t" for s
    by (simp only: like_contains [OF assms(2) assms(3)] contains_ignoring_ascii_case_def sqlite_lower_idem)
  from assms(4) have "\<not> 50000 < utf8_length (''%'' @ ?t @ ''%'')" by simp
  with ne show ?thesis
    by (simp only: search_inventory_def Let_def if_False m simp_thms)
qed

lemma search_empty_term:
  "strip raw_term = [] \<Longrightarrow> search_inventory raw_term db = Inr (Message ''Nothing to search.'')"
  by (simp add: search_inventory_def lower_def)

lemma shop_names_lower:
  "sqlite_lower ''Widget'' = ''widget''" "sqlite_lower ''Hardware'' = ''hardware''"
  by (simp_all add: string_eval)

lemma term_underscore: "lower (strip ''_'') = ''_''"
  by (simp add: string_eval)

text \<open>
  C7. The claim fails on the code. The term is put into the \<open>LIKE\<close> pattern as it
  is, and \<open>_\<close> is a wildcard of \<open>LIKE\<close>: the term \<open>_\<close> lists Widget, whose name and
  category hold no underscore.
\<close>

theorem search_underscore_lists_widget:
  "search_inventory ''_'' widget_db = Inr (Listing [(''Widget'', ''Hardware'', 5, 3)]) \<and>
   \<not> contains_ignoring_ascii_case ''Widget'' (lower (strip ''_'')) \<and>
   \<not> contains_ignoring_ascii_case ''Hardware'' (lower (strip ''_'')) \<and>
   CHR ''_'' \<notin> set ''Widget'' \<and> CHR ''_'' \<notin> set ''Hardware''"
proof -
  have "search_inventory ''_'' widget_db = Inr (Listing [(''Widget'', ''Hardware'', 5, 3)])"
    by (simp add: search_inventory_def term_underscore widget_db_def shop_names_lower report_def
          utf8_length_def)
  moreover have "\<not> contains_ignoring_ascii_case ''Widget'' (lower (strip ''_''))"
    by (simp add: term_underscore contains_ignoring_ascii_case_def shop_names_lower sqlite_lower_def
          lower_by_def ascii_upper_letters_def ascii_lower_letters_def sublist_code)
  moreover have "\<not> contains_ignoring_ascii_case ''Hardware'' (lower (strip ''_''))"
    by (simp add: term_underscore contains_ignoring_ascii_case_def shop_names_lower sqlite_lower_def
          lower_by_def ascii_upper_letters_def ascii_lower_letters_def sublist_code)
  ultimately show ?thesis by simp
qed

text \<open>The case of a letter beyond ASCII is not ignored either: Python lower-cases the
  term, SQLite's \<open>lower\<close> leaves the stored name as it is, and \<open>LIKE\<close> does not fold
  such letters. A search for the very name stored in \<open>cafe_db\<close>, or for its last
  letter in either case, finds nothing.\<close>

lemma search_latin1_letter:
  "search_inventory [CHR ''C'', CHR ''A'', CHR ''F'', CHR 0xC9] cafe_db = Inr (Message ''No matching items found.'') \<and>
   search_inventory [CHR 0xC9] cafe_db = Inr (Message ''No matching items found.'') \<and>
   search_inventory [CHR 0xE9] cafe_db = Inr (Message ''No matching items found.'') \<and>
   search_inventory ''caf'' cafe_db =
     Inr (Listing [([CHR ''C'', CHR ''A'', CHR ''F'', CHR 0xC9], ''Drinks'', 4, 1)])"
  by (simp add: search_inventory_def cafe_db_def report_def string_eval utf8_length_def)

subsection \<open>Numbers in the export\<close>

lemma below_ten: "d < 10 \<Longrightarrow> d \<in> {0, 1, 2, 3, 4, 5, 6, 7, 8, 9::nat}"
  by auto

lemma digit_eval:
  "digit_char 0 = CHR ''0''" "digit_char 1 = CHR ''1''" "digit_char 2 = CHR ''2''"
  "digit_char 3 = CHR ''3''" "digit_char 4 = CHR ''4''" "digit_char 5 = CHR ''5''"
  "digit_char 6 = CHR ''6''" "digit_char 7 = CHR ''7''" "digit_char 8 = CHR ''8''"
  "digit_char 9 = CHR ''9''" "digit_char (Suc 0) = CHR ''1''"
  by (simp_all add: digit_char_def)

lemma digit_of_eval:
  "digit_of_char CHR ''0'' = Some 0" "digit_of_char CHR ''1'' = Some 1" "digit_of_char CHR ''2'' = Some 2"
  "digit_of_char CHR ''3'' = Some 3" "digit_of_char CHR ''4'' = Some 4" "digit_of_char CHR ''5'' = Some 5"
  "digit_of_char CHR ''6'' = Some 6" "digit_of_char CHR ''7'' = Some 7" "digit_of_char CHR ''8'' = Some 8"
  "digit_of_char CHR ''9'' = Some 9"
  by (simp_all add: digit_of_char_def)

lemma digit_of_digit_char: "d < 10 \<Longrightarrow> digit_of_char (digit_char d) = Some d"
  using below_ten [of d] by (auto simp: digit_eval digit_of_eval)

lemma digit_char_plain: "d < 10 \<Longrightarrow> digit_char d \<in> set ''0123456789''"
  using below_ten [of d] by (auto simp: digit_eval)



lemma nat_of_str_snoc:
  "nat_of_str acc (s @ [c]) =
    (case nat_of_str acc s of None \<Rightarrow> None
     | Some m \<Rightarrow> (case digit_of_char c of None \<Rightarrow> None | Some d \<Rightarrow> Some (10 * m + d)))"
  by (induction s arbitrary: acc) (simp_all split: option.splits)

lemma digits_small: "n < 10 \<Longrightarrow> digits n = [digit_char n]"
  by (subst digits.simps) simp

lemma digits_large: "\<not> n < 10 \<Longrightarrow> digits n = digits (n div 10) @ [digit_char (n mod 10)]"
  by (subst digits.simps) simp

lemma nat_of_str_digits: "nat_of_str 0 (digits n) = Some n"
proof (induction n rule: digits.induct)
  case (1 n)
  show ?case
  proof (cases "n < 10")
    case True
    with digits_small [OF True] show ?thesis by (simp add: digit_of_digit_char)
  next
    case False
    with 1 have "nat_of_str 0 (digits (n div 10)) = Some (n div 10)" by simp
    moreover have "digit_of_char (digit_char (n mod 10)) = Some (n mod 10)"
      by (rule digit_of_digit_char) simp
    ultimately show ?thesis using digits_large [OF False] by (simp add: nat_of_str_snoc)
  qed
qed




lemma digits_plain: "set (digits n) \<subseteq> set ''0123456789''"
proof (induction n rule: digits.induct)
  case (1 n)
  show ?case
  proof (cases "n < 10")
    case True
    with digit_char_plain [of n] digits_small [of n] show ?thesis by simp
  next
    case False
    with 1 have a: "set (digits (n div 10)) \<subseteq> set ''0123456789''" by simp
    have b: "digit_char (n mod 10) \<in> set ''0123456789''" by (rule digit_char_plain) simp
    have "set (digits n) = set (digits (n div 10)) \<union> {digit_char (n mod 10)}"
      using digits_large [OF False] by simp
    with a b show ?thesis by blast
  qed
qed

lemma digits_not_empty: "digits n \<noteq> []"
proof (cases "n < 10")
  case True
  from digits_small [OF this] show ?thesis by simp
next
  case False
  from digits_large [OF this] show ?thesis by simp
qed


lemma digits_no_minus: "hd (digits n) \<noteq> CHR ''-''"
proof -
  have "hd (digits n) \<in> set (digits n)" by (rule hd_in_set [OF digits_not_empty])
  with digits_plain [of n] have "hd (digits n) \<in> set ''0123456789''" by blast
  then show ?thesis by auto
qed

lemma int_of_str_of_int: "int_of_str (str_of_int i) = Some i"
proof (cases "i < 0")
  case True
  have "int_of_str (CHR ''-'' # digits (nat (- i))) = map_option (\<lambda>n. - int n) (nat_of_str 0 (digits (nat (- i))))"
    using digits_not_empty [of "nat (- i)"] by (simp add: int_of_str_def)
  with True show ?thesis by (simp add: str_of_int_def nat_of_str_digits)
next
  case False
  obtain c cs where d: "digits (nat i) = c # cs"
    using digits_not_empty [of "nat i"] by (cases "digits (nat i)") auto
  with digits_no_minus [of "nat i"] have c: "c \<noteq> CHR ''-''" by simp
  have n: "nat_of_str 0 (c # cs) = Some (nat i)" using nat_of_str_digits [of "nat i"] d by simp
  have "int_of_str (c # cs) = map_option int (nat_of_str 0 (c # cs))"
    using c by (simp add: int_of_str_def)
  with n have "int_of_str (c # cs) = Some (int (nat i))" by simp
  with False d show ?thesis by (simp add: str_of_int_def)
qed






subsection \<open>The export and its round trip\<close>













lemma parse_written_row: "parse_row [i, c, str_of_int q, str_of_int rl] = Some (i, c, q, rl)"
  by (simp add: int_of_str_of_int)













end
